theory Spec2Isabelle
  imports Complex_Main "HOL-Library.Char_ord" "HOL-Library.List_Lexorder"
begin

section \<open>Data model of the proposal analyzer\<close>

text \<open>
  The development embeds \<^verbatim>\<open>scripts/analyze_proposal.py\<close> (class
  \<^verbatim>\<open>ProposalAnalyzer\<close>).  The fields of a proposal are Python strings of any content,
  so they are lists of Unicode code points, and the stripping and the word gate of
  \<^verbatim>\<open>analyze_proposal\<close> work on code points.  Everywhere else a Python string is the HOL
  string of its UTF-8 bytes: equality, membership and concatenation are exact on them,
  and so is every character-wise operation on ASCII text, which is all that the word gate
  admits for the word.
\<close>

datatype status = Pending | Pass | Warning | Fail | Error

datatype recommendation = RecPending | Approve | Review | Reject | RecError

datatype check_name = Phonotactics | Lexicon | Homophones | Semantics

record check_outcome =
  status :: status
  messages :: "string list"

text \<open>
  \<^verbatim>\<open>self.analysis_results\<close>: a dict with one entry per section and the key
  \<^verbatim>\<open>'recommendation'\<close>.
\<close>

record analysis_results =
  sections :: "check_name \<Rightarrow> check_outcome"
  recommendation :: recommendation

text \<open>
  A lexicon entry is a JSON object; the analyzer only reads its keys
  \<^verbatim>\<open>'definition'\<close> and \<^verbatim>\<open>'domain'\<close>, both with \<^verbatim>\<open>.get(key, 'unknown')\<close>, so
  each is an optional string.  A JSON value of another type under these keys is outside
  the model.
\<close>

record entry =
  definition_of :: "string option"
  domain_of :: "string option"

text \<open>
  The attributes of \<^verbatim>\<open>ProposalAnalyzer\<close>.  The lexicon is a dict, kept as an
  association list in insertion order (the order \<^verbatim>\<open>.items()\<close> iterates in).
  Two fields are not attributes of the class but behaviour of the interpreter that the
  model takes as given.  \<^verbatim>\<open>set_iteration\<close> is the order in which it iterates over
  \<^verbatim>\<open>set(xs)\<close>, which Python leaves unspecified.  \<^verbatim>\<open>score_text p q\<close> is the text of
  \<^verbatim>\<open>f"{similarity:.2f}"\<close> for the similarity of the pronunciations \<^verbatim>\<open>p\<close> and \<^verbatim>\<open>q\<close>: it
  prints the binary floating-point number that the interpreter has computed, while the
  model computes the scores in exact arithmetic.
\<close>

record analyzer =
  lexicon :: "(string \<times> entry) list"
  valid_phonemes :: "char set"
  valid_domains :: "string set"
  consonants :: "char set"
  vowels :: "char set"
  permitted_clusters :: "string set"
  analysis_results :: analysis_results
  set_iteration :: "char list \<Rightarrow> char list"
  score_text :: "nat list \<Rightarrow> nat list \<Rightarrow> string"

definition initial_results :: analysis_results where
  "initial_results =
     \<lparr>sections = (\<lambda>_. \<lparr>status = Pending, messages = []\<rparr>), recommendation = RecPending\<rparr>"

text \<open>
  The two assignments \<^verbatim>\<open>self.analysis_results[s]['status'] = st\<close> and
  \<^verbatim>\<open>self.analysis_results[s]['messages'] = ms\<close>.
\<close>

definition set_section :: "check_name \<Rightarrow> status \<Rightarrow> string list \<Rightarrow> analyzer \<Rightarrow> analyzer" where
  "set_section s st ms a =
     a\<lparr>analysis_results :=
         (analysis_results a)\<lparr>sections :=
            (sections (analysis_results a))(s := \<lparr>status = st, messages = ms\<rparr>)\<rparr>\<rparr>"

definition section_status :: "analyzer \<Rightarrow> check_name \<Rightarrow> status" where
  "section_status a s = status (sections (analysis_results a) s)"

definition section_messages :: "analyzer \<Rightarrow> check_name \<Rightarrow> string list" where
  "section_messages a s = messages (sections (analysis_results a) s)"

subsection \<open>Message markers\<close>

definition cross_mark :: string where
  "cross_mark = [CHR 0xE2, CHR 0x9D, CHR 0x8C]"

definition check_mark :: string where
  "check_mark = [CHR 0xE2, CHR 0x9C, CHR 0x85]"

definition warning_sign :: string where
  "warning_sign = [CHR 0xE2, CHR 0x9A, CHR 0xA0, CHR 0xEF, CHR 0xB8, CHR 0x8F]"

definition bullet :: string where
  "bullet = [CHR 0xE2, CHR 0x80, CHR 0xA2]"

definition fail_msg :: "string \<Rightarrow> string" where
  "fail_msg t = cross_mark @ '' FAIL: '' @ t"

definition pass_msg :: "string \<Rightarrow> string" where
  "pass_msg t = check_mark @ '' PASS: '' @ t"

definition warning_msg :: "string \<Rightarrow> string" where
  "warning_msg t = warning_sign @ '' WARNING: '' @ t"

definition error_msg :: "string \<Rightarrow> string" where
  "error_msg t = cross_mark @ '' ERROR: '' @ t"

definition quoted :: "string \<Rightarrow> string" where
  "quoted s = [CHR 0x27] @ s @ [CHR 0x27]"

section \<open>String operations of the host language\<close>

text \<open>
  \<^verbatim>\<open>str.lower\<close> on ASCII: the capital letters move to the small ones.  It is exact
  on the word, which has passed the gate; a lexicon key with cased letters beyond ASCII
  is outside the model of the homophone detector.
\<close>

definition lower_char :: "char \<Rightarrow> char" where
  "lower_char c =
     (let n = (of_char c :: nat) in if 65 \<le> n \<and> n \<le> 90 then char_of (n + 32) else c)"

definition lower :: "string \<Rightarrow> string" where
  "lower s = map lower_char s"

text \<open>The character class \<^verbatim>\<open>[a-zA-Z-]\<close>, on the bytes of a string.\<close>

definition word_char :: "char \<Rightarrow> bool" where
  "word_char c =
     (let n = (of_char c :: nat)
      in (97 \<le> n \<and> n \<le> 122) \<or> (65 \<le> n \<and> n \<le> 90) \<or> c = CHR ''-'')"

subsection \<open>Strings as code points: stripping and the format of the word\<close>

text \<open>
  A string literal as code points (for ASCII text they are the bytes), and the UTF-8
  bytes of a list of code points.
\<close>

definition code_points :: "string \<Rightarrow> nat list" where
  "code_points s = map of_char s"

definition utf8_char :: "nat \<Rightarrow> string" where
  "utf8_char n =
     (if n < 0x80 then [char_of n]
      else if n < 0x800 then [char_of (0xC0 + n div 64), char_of (0x80 + n mod 64)]
      else if n < 0x10000
      then [char_of (0xE0 + n div 4096), char_of (0x80 + n div 64 mod 64),
            char_of (0x80 + n mod 64)]
      else [char_of (0xF0 + n div 262144), char_of (0x80 + n div 4096 mod 64),
            char_of (0x80 + n div 64 mod 64), char_of (0x80 + n mod 64)])"

definition utf8 :: "nat list \<Rightarrow> string" where
  "utf8 s = concat (map utf8_char s)"

text \<open>The character class \<^verbatim>\<open>[a-zA-Z-]\<close> of the word gate, on code points.\<close>

definition gate_char :: "nat \<Rightarrow> bool" where
  "gate_char n = ((97 \<le> n \<and> n \<le> 122) \<or> (65 \<le> n \<and> n \<le> 90) \<or> n = 45)"

text \<open>
  \<^verbatim>\<open>re.match(r'^[a-zA-Z-]+$', word)\<close>: in Python \<^verbatim>\<open>$\<close> also matches just before a
  final newline.
\<close>

definition word_chars_only :: "nat list \<Rightarrow> bool" where
  "word_chars_only w = (w \<noteq> [] \<and> list_all gate_char w)"

definition matches_word_format :: "nat list \<Rightarrow> bool" where
  "matches_word_format w =
     (word_chars_only w \<or> (w \<noteq> [] \<and> last w = 10 \<and> word_chars_only (butlast w)))"

text \<open>
  \<^verbatim>\<open>str.strip()\<close> removes the white space of Unicode at both ends: the code points
  U+0009 to U+000D, U+001C to U+0020, U+0085, U+00A0, U+1680, U+2000 to U+200A, U+2028,
  U+2029, U+202F, U+205F and U+3000.
\<close>

definition is_space :: "nat \<Rightarrow> bool" where
  "is_space n =
     ((9 \<le> n \<and> n \<le> 13) \<or> (28 \<le> n \<and> n \<le> 32) \<or> n = 0x85 \<or> n = 0xA0 \<or> n = 0x1680 \<or>
      (0x2000 \<le> n \<and> n \<le> 0x200A) \<or> n = 0x2028 \<or> n = 0x2029 \<or> n = 0x202F \<or>
      n = 0x205F \<or> n = 0x3000)"

definition strip :: "nat list \<Rightarrow> nat list" where
  "strip s = rev (dropWhile is_space (rev (dropWhile is_space s)))"

subsection \<open>Strings as bytes\<close>

text \<open>\<^verbatim>\<open>word.split('-')\<close>: never an empty list; empty parts are kept.\<close>

fun split_hyphen :: "string \<Rightarrow> string list" where
  "split_hyphen [] = [[]]"
| "split_hyphen (c # cs) =
     (if c = CHR ''-'' then [] # split_hyphen cs
      else (case split_hyphen cs of
              [] \<Rightarrow> [[c]]
            | p # ps \<Rightarrow> (c # p) # ps))"

text \<open>\<^verbatim>\<open>word.replace('-', '')\<close>.\<close>

definition remove_hyphens :: "string \<Rightarrow> string" where
  "remove_hyphens w = filter (\<lambda>c. c \<noteq> CHR ''-'') w"

text \<open>\<^verbatim>\<open>sep.join(xs)\<close>.\<close>

fun join :: "string \<Rightarrow> string list \<Rightarrow> string" where
  "join sep [] = []"
| "join sep [x] = x"
| "join sep (x # y # ys) = x @ sep @ join sep (y # ys)"

text \<open>\<^verbatim>\<open>sub in s\<close> for strings.\<close>

fun contains :: "string \<Rightarrow> string \<Rightarrow> bool" where
  "contains sub [] = (sub = [])"
| "contains sub (c # cs) = (take (length sub) (c # cs) = sub \<or> contains sub cs)"

text \<open>\<^verbatim>\<open>str(n)\<close> for a natural number.\<close>

definition digit_char :: "nat \<Rightarrow> char" where
  "digit_char d = char_of (48 + d)"

fun show_nat :: "nat \<Rightarrow> string" where
  "show_nat n = (if n < 10 then [digit_char n] else show_nat (n div 10) @ [digit_char (n mod 10)])"

declare show_nat.simps [simp del]

section \<open>Construction and loading\<close>

text \<open>\<^verbatim>\<open>__init__\<close>: every table empty, every section pending.\<close>

definition init_analyzer ::
    "(char list \<Rightarrow> char list) \<Rightarrow> (nat list \<Rightarrow> nat list \<Rightarrow> string) \<Rightarrow> analyzer" where
  "init_analyzer iter render =
     \<lparr>lexicon = [], valid_phonemes = {}, valid_domains = {}, consonants = {}, vowels = {},
      permitted_clusters = {}, analysis_results = initial_results, set_iteration = iter,
      score_text = render\<rparr>"

text \<open>\<^verbatim>\<open>load_phonology\<close>, on the path where the rules document exists.\<close>

definition load_phonology :: "analyzer \<Rightarrow> analyzer" where
  "load_phonology a =
     a\<lparr>valid_phonemes := set ''pbtdkgmnfshlrwjaeiou'',
       consonants := set ''pbtdkgmnfshlrwj'',
       vowels := set ''aeiou'',
       permitted_clusters := {''st'', ''pl'', ''pr'', ''tr'', ''sp''}\<rparr>"

text \<open>\<^verbatim>\<open>d[k] = v\<close> on a dict: an existing key keeps its place, a new one goes last.\<close>

fun dict_set :: "'k \<Rightarrow> 'v \<Rightarrow> ('k \<times> 'v) list \<Rightarrow> ('k \<times> 'v) list" where
  "dict_set k v [] = [(k, v)]"
| "dict_set k v (p # ps) = (if fst p = k then (k, v) # ps else p # dict_set k v ps)"

text \<open>
  The loop of \<^verbatim>\<open>load_lexicon\<close> over the entries of the snapshot, each given with its
  \<^verbatim>\<open>'word'\<close> (empty when the key is missing): entries without a word are skipped, the
  others are stored and their non-empty domain joins the known domains.
\<close>

fun load_lexicon :: "(string \<times> entry) list \<Rightarrow> analyzer \<Rightarrow> analyzer" where
  "load_lexicon [] a = a"
| "load_lexicon ((word, e) # es) a =
     (if word = [] then load_lexicon es a
      else load_lexicon es
             (a\<lparr>lexicon := dict_set word e (lexicon a),
                valid_domains :=
                  (case domain_of e of
                     None \<Rightarrow> valid_domains a
                   | Some d \<Rightarrow> if d = [] then valid_domains a else insert d (valid_domains a))\<rparr>))"

text \<open>\<^verbatim>\<open>word in self.lexicon\<close> and \<^verbatim>\<open>self.lexicon[word]\<close>.\<close>

definition in_lexicon :: "analyzer \<Rightarrow> string \<Rightarrow> bool" where
  "in_lexicon a w = (map_of (lexicon a) w \<noteq> None)"

text \<open>\<^verbatim>\<open>entry.get('definition', 'unknown')\<close> and \<^verbatim>\<open>entry.get('domain', 'unknown')\<close>.\<close>

definition get_definition :: "entry \<Rightarrow> string" where
  "get_definition e = (case definition_of e of None \<Rightarrow> ''unknown'' | Some d \<Rightarrow> d)"

definition get_domain :: "entry \<Rightarrow> string" where
  "get_domain e = (case domain_of e of None \<Rightarrow> ''unknown'' | Some d \<Rightarrow> d)"

section \<open>Phonotactic validator\<close>

text \<open>
  \<^verbatim>\<open>_is_valid_syllable_sequence\<close>.  The index \<^verbatim>\<open>i\<close> of the source is the number of
  characters already consumed; the functions below work on the characters from \<^verbatim>\<open>i\<close>
  on.  \<^verbatim>\<open>onset\<close> is the first \<^verbatim>\<open>if\<close>/\<^verbatim>\<open>elif\<close> of the loop body (\<^verbatim>\<open>None\<close>: the
  function returns \<^verbatim>\<open>False\<close>), \<^verbatim>\<open>coda\<close> the inner \<^verbatim>\<open>while\<close>.
\<close>

fun onset :: "analyzer \<Rightarrow> string \<Rightarrow> string option" where
  "onset a (c # d # cs) =
     (if c \<in> consonants a \<and> d \<in> consonants a
      then (if [c, d] \<in> permitted_clusters a then Some cs else None)
      else if c \<in> consonants a then Some (d # cs)
      else Some (c # d # cs))"
| "onset a [c] = (if c \<in> consonants a then Some [] else Some [c])"
| "onset a [] = Some []"

fun coda :: "analyzer \<Rightarrow> string \<Rightarrow> string" where
  "coda a [] = []"
| "coda a [c] = (if c \<in> consonants a then [] else [c])"
| "coda a (c # d # cs) =
     (if c \<notin> consonants a then c # d # cs
      else if d \<in> vowels a then c # d # cs
      else if d \<in> consonants a
           then (if [c, d] \<in> permitted_clusters a then c # d # cs else d # cs)
      else coda a (d # cs))"

lemma length_onset: "onset a cs = Some cs' \<Longrightarrow> length cs' \<le> length cs"
  by (induction a cs rule: onset.induct) (auto split: if_splits)

lemma length_coda: "length (coda a cs) \<le> length cs"
  by (induction a cs rule: coda.induct) auto

function syllables :: "analyzer \<Rightarrow> string \<Rightarrow> bool" where
  "syllables a cs =
     (if cs = [] then True
      else (case onset a cs of
              None \<Rightarrow> False
            | Some cs1 \<Rightarrow>
                if cs1 = [] \<or> hd cs1 \<notin> vowels a then False
                else syllables a (coda a (tl cs1))))"
  by pat_completeness auto
termination
proof (relation "measure (\<lambda>(a, cs). length cs)")
  show "wf (measure (\<lambda>(a, cs). length cs))" by simp
next
  fix a :: analyzer and cs cs1 :: string
  assume "cs \<noteq> []" and o: "onset a cs = Some cs1"
    and "\<not> (cs1 = [] \<or> hd cs1 \<notin> vowels a)"
  then have "cs1 \<noteq> []" by simp
  then have "length (tl cs1) < length cs1" by simp
  moreover have "length (coda a (tl cs1)) \<le> length (tl cs1)" by (rule length_coda)
  moreover have "length cs1 \<le> length cs" using o by (rule length_onset)
  ultimately show "((a, coda a (tl cs1)), (a, cs)) \<in> measure (\<lambda>(a, cs). length cs)"
    by simp
qed

declare syllables.simps [simp del]

definition is_valid_syllable_sequence :: "analyzer \<Rightarrow> string \<Rightarrow> bool" where
  "is_valid_syllable_sequence a word_part =
     (if word_part = [] then False else syllables a (lower word_part))"

text \<open>\<^verbatim>\<open>_validate_hyphen_usage\<close>; \<^verbatim>\<open>hyphen_parts\<close> is its loop over the parts.\<close>

fun hyphen_parts :: "analyzer \<Rightarrow> string list \<Rightarrow> bool \<times> string" where
  "hyphen_parts a [] = (True, [])"
| "hyphen_parts a (part # parts) =
     (if part = [] then (False, ''Empty word part found (consecutive hyphens?)'')
      else if \<not> is_valid_syllable_sequence a part
           then (False, ''Invalid syllable structure in part '' @ quoted part)
      else hyphen_parts a parts)"

definition validate_hyphen_usage :: "analyzer \<Rightarrow> string \<Rightarrow> bool \<times> string" where
  "validate_hyphen_usage a word =
     (if contains ''--'' word then (False, ''Multiple consecutive hyphens not allowed'')
      else if (word \<noteq> [] \<and> hd word = CHR ''-'') \<or> (word \<noteq> [] \<and> last word = CHR ''-'')
           then (False, ''Hyphens cannot appear at word boundaries'')
      else (let parts = split_hyphen word
            in if length parts < 2 then (False, ''Hyphenated word must have at least two parts'')
               else hyphen_parts a parts))"

text \<open>\<^verbatim>\<open>_validate_syllable_structure\<close>.\<close>

fun syllable_parts :: "analyzer \<Rightarrow> string list \<Rightarrow> bool \<times> string" where
  "syllable_parts a [] = (True, [])"
| "syllable_parts a (part # parts) =
     (if \<not> is_valid_syllable_sequence a (lower part)
      then (False, ''Invalid syllable structure in '' @ quoted part)
      else syllable_parts a parts)"

definition validate_syllable_structure :: "analyzer \<Rightarrow> string \<Rightarrow> bool \<times> string" where
  "validate_syllable_structure a word = syllable_parts a (split_hyphen word)"

text \<open>
  \<^verbatim>\<open>_validate_consonant_clusters\<close>.  \<^verbatim>\<open>scan_clusters a part_idx i rest\<close> is the
  \<^verbatim>\<open>while i < len(part)\<close> loop with \<^verbatim>\<open>rest = part[i:]\<close>; it yields \<^verbatim>\<open>Some r\<close> when
  the method returns \<^verbatim>\<open>r\<close> from inside the loop and \<^verbatim>\<open>None\<close> when the loop ends.
\<close>

lemma length_dropWhile_less:
  "rest \<noteq> [] \<Longrightarrow> P (hd rest) \<Longrightarrow> length (dropWhile P rest) < length rest"
  by (cases rest) (simp_all add: less_Suc_eq_le length_dropWhile_le)

function scan_clusters ::
    "analyzer \<Rightarrow> nat \<Rightarrow> nat \<Rightarrow> string \<Rightarrow> (bool \<times> string \<times> bool) option" where
  "scan_clusters a part_idx i rest =
     (if rest = [] then None
      else if hd rest \<in> consonants a then
        (let cluster_start = i;
             cluster = takeWhile (\<lambda>c. c \<in> consonants a) rest;
             i' = i + length cluster;
             rest' = dropWhile (\<lambda>c. c \<in> consonants a) rest
         in if length cluster > 1 then
              (if length cluster > 2
               then Some (False, ''Consonant cluster '' @ quoted cluster @
                            '' is too long (max 2 consonants)'', False)
               else if cluster \<notin> permitted_clusters a
               then Some (False, ''Consonant cluster '' @ quoted cluster @
                            '' is not permitted. Allowed clusters: '' @
                            join '', '' (sorted_list_of_set (permitted_clusters a)), False)
               else if cluster_start = 0 \<and> part_idx = 0
               then Some (False, ''Consonant cluster '' @ quoted cluster @
                            '' cannot appear at word beginning'', False)
               else scan_clusters a part_idx i' rest')
            else scan_clusters a part_idx i' rest')
      else scan_clusters a part_idx (i + 1) (tl rest))"
  by pat_completeness auto
termination
  by (relation "measure (\<lambda>(a, part_idx, i, rest). length rest)")
     (auto simp: length_dropWhile_less)

declare scan_clusters.simps [simp del]

fun cluster_parts :: "analyzer \<Rightarrow> nat \<Rightarrow> string list \<Rightarrow> bool \<times> string \<times> bool" where
  "cluster_parts a part_idx [] = (True, [], False)"
| "cluster_parts a part_idx (part # parts) =
     (case scan_clusters a part_idx 0 (lower part) of
        Some r \<Rightarrow> r
      | None \<Rightarrow> cluster_parts a (part_idx + 1) parts)"

definition validate_consonant_clusters :: "analyzer \<Rightarrow> string \<Rightarrow> bool \<times> string \<times> bool" where
  "validate_consonant_clusters a word = cluster_parts a 0 (split_hyphen word)"

text \<open>
  \<^verbatim>\<open>_analyze_phonotactics_basic\<close>: four steps on one status variable and one list of
  messages.  With strings as input no step raises, so the handler of the method is not
  reached.
\<close>

definition invalid_phonemes :: "analyzer \<Rightarrow> string \<Rightarrow> char list" where
  "invalid_phonemes a word =
     filter (\<lambda>c. c \<notin> valid_phonemes a) (lower (remove_hyphens word))"

definition analyze_phonotactics_basic :: "analyzer \<Rightarrow> string \<Rightarrow> analyzer" where
  "analyze_phonotactics_basic a word =
     (let invalid = invalid_phonemes a word;
          (status1, messages1) =
            (if invalid \<noteq> []
             then (Fail,
                   [fail_msg (''Invalid phonemes found: '' @
                       join '', '' (map (\<lambda>c. [c]) (set_iteration a invalid))),
                    ''Valid phonemes: '' @
                       join '', '' (map (\<lambda>c. [c]) (sorted_list_of_set (valid_phonemes a)))])
             else (Pass, [pass_msg ''All phonemes are valid Fidakune sounds'']));
          (status2, messages2) =
            (if CHR ''-'' \<in> set word
             then (let hyphen_valid = validate_hyphen_usage a word
                   in if \<not> fst hyphen_valid
                      then (Fail, messages1 @ [fail_msg (snd hyphen_valid)])
                      else (status1, messages1 @
                              [pass_msg ''Hyphen placement is correct for compound words'']))
             else (status1, messages1));
          syllable_valid = validate_syllable_structure a word;
          (status3, messages3) =
            (if \<not> fst syllable_valid
             then (Fail, messages2 @ [fail_msg (snd syllable_valid)])
             else (status2, messages2 @
                     [pass_msg ''Syllable structure follows Fidakune phonotactics'']));
          cluster_valid = validate_consonant_clusters a word;
          (status4, messages4) =
            (if \<not> fst cluster_valid
             then (if snd (snd cluster_valid)
                   then (if status3 = Pass then Warning else status3,
                         messages3 @ [warning_msg (fst (snd cluster_valid))])
                   else (Fail, messages3 @ [fail_msg (fst (snd cluster_valid))]))
             else (status3, messages3 @ [pass_msg ''Consonant clusters are valid'']))
      in set_section Phonotactics status4 messages4 a)"

section \<open>Lexicon consistency checker\<close>

text \<open>\<^verbatim>\<open>_verify_compound_roots\<close>; \<^verbatim>\<open>verify_roots\<close> is its loop over the roots.\<close>

fun verify_roots :: "analyzer \<Rightarrow> string list \<Rightarrow> string list \<Rightarrow> bool \<times> string \<times> string list" where
  "verify_roots a [] success_messages = (True, [], success_messages)"
| "verify_roots a (root_word # roots) success_messages =
     (case map_of (lexicon a) root_word of
        None \<Rightarrow> (False, ''Root word '' @ quoted root_word @ '' not found in lexicon'', [])
      | Some root_entry \<Rightarrow>
          verify_roots a roots
            (success_messages @
               [pass_msg (''Root '' @ quoted root_word @ '' exists in lexicon ('' @
                  get_domain root_entry @ '': '' @ get_definition root_entry @ '')'')]))"

definition verify_compound_roots :: "analyzer \<Rightarrow> string \<Rightarrow> bool \<times> string \<times> string list" where
  "verify_compound_roots a compound_word = verify_roots a (split_hyphen compound_word) []"

text \<open>\<^verbatim>\<open>_check_compound_domain_consistency\<close>, with its table of compatible domains.\<close>

definition domain_combinations :: "(string \<times> string list) list" where
  "domain_combinations =
     [(''Emotion'', [''Body'', ''Nature'', ''Quality'']),
      (''Action'', [''Body'', ''Object'', ''Nature'']),
      (''Quality'', [''Nature'', ''Object'', ''Body''])]"

definition root_domains_of :: "analyzer \<Rightarrow> string \<Rightarrow> string list" where
  "root_domains_of a compound_word =
     List.map_filter (\<lambda>root_word. map_option get_domain (map_of (lexicon a) root_word))
       (split_hyphen compound_word)"

definition check_compound_domain_consistency :: "analyzer \<Rightarrow> string \<Rightarrow> string \<Rightarrow> bool \<times> string" where
  "check_compound_domain_consistency a compound_word proposed_domain =
     (let root_domains = root_domains_of a compound_word
      in if proposed_domain \<in> set root_domains
         then (True, pass_msg (''Domain '' @ quoted proposed_domain @
                 '' is consistent with root domains: '' @ join '', '' root_domains))
         else (case map_of domain_combinations proposed_domain of
                 Some compatible \<Rightarrow>
                   if list_ex (\<lambda>root_domain. root_domain \<in> set compatible) root_domains
                   then (True, pass_msg (''Domain '' @ quoted proposed_domain @
                           '' is semantically compatible with root domains: '' @
                           join '', '' root_domains))
                   else (False, ''Domain '' @ quoted proposed_domain @
                           '' may not be consistent with root domains: '' @
                           join '', '' root_domains @
                           ''. Consider if this combination makes semantic sense.'')
               | None \<Rightarrow>
                   (False, ''Domain '' @ quoted proposed_domain @
                      '' may not be consistent with root domains: '' @
                      join '', '' root_domains @
                      ''. Consider if this combination makes semantic sense.'')))"

text \<open>\<^verbatim>\<open>_analyze_lexicon_basic\<close>: duplicate check, root check, domain check.\<close>

definition duplicate_check :: "analyzer \<Rightarrow> string \<Rightarrow> status \<times> string list" where
  "duplicate_check a word =
     (case map_of (lexicon a) word of
        Some e \<Rightarrow>
          (Fail, [fail_msg (''Word '' @ quoted word @
                    '' already exists in lexicon with definition: '' @ get_definition e)])
      | None \<Rightarrow> (Pass, [pass_msg (''Word '' @ quoted word @ '' is not already in lexicon'')]))"

definition root_check :: "analyzer \<Rightarrow> string \<Rightarrow> status \<times> string list \<Rightarrow> status \<times> string list" where
  "root_check a word sm =
     (if CHR ''-'' \<in> set word
      then (let compound_valid = verify_compound_roots a word
            in if \<not> fst compound_valid
               then (Fail, snd sm @ [fail_msg (fst (snd compound_valid))])
               else (fst sm, snd sm @ snd (snd compound_valid)))
      else sm)"

definition domain_check ::
    "analyzer \<Rightarrow> string \<Rightarrow> string \<Rightarrow> status \<times> string list \<Rightarrow> status \<times> string list" where
  "domain_check a word domain sm =
     (if CHR ''-'' \<in> set word \<and> fst sm \<noteq> Fail
      then (let consistency = check_compound_domain_consistency a word domain
            in if \<not> fst consistency
               then (if fst sm = Pass then Warning else fst sm,
                     snd sm @ [warning_msg (snd consistency)])
               else (fst sm, snd sm @ [snd consistency]))
      else sm)"

definition analyze_lexicon_basic :: "analyzer \<Rightarrow> string \<Rightarrow> string \<Rightarrow> analyzer" where
  "analyze_lexicon_basic a word domain =
     (let sm = domain_check a word domain (root_check a word (duplicate_check a word))
      in set_section Lexicon (fst sm) (snd sm) a)"

section \<open>Homophone detector\<close>

text \<open>
  \<^verbatim>\<open>_generate_pronunciation\<close>.  A pronunciation is a Python string that can hold the
  tap symbol U+027E, so it is kept as the list of its code points.
\<close>

definition pronunciation_map :: "char \<Rightarrow> nat" where
  "pronunciation_map c =
     (if c = CHR ''r'' then 0x27E
      else if c = CHR ''j'' then of_char CHR ''y''
      else of_char c)"

definition generate_pronunciation :: "string \<Rightarrow> nat list" where
  "generate_pronunciation word = map pronunciation_map (lower (remove_hyphens word))"

text \<open>
  \<^verbatim>\<open>_levenshtein_distance\<close>: the table of edit distances is filled row by row.
  \<^verbatim>\<open>lev_cell\<close> is the body of the inner loop (it appends one cell to the current
  row), \<^verbatim>\<open>lev_row\<close> the body of the outer loop, \<^verbatim>\<open>lev_table\<close> the method once the
  longer string is first; the method calls itself with swapped arguments when the first
  string is the shorter one, and that call does not swap again.
\<close>

definition lev_cell :: "'a \<Rightarrow> nat list \<Rightarrow> nat list \<Rightarrow> nat \<times> 'a \<Rightarrow> nat list" where
  "lev_cell c1 previous_row current_row jc =
     (let j = fst jc; c2 = snd jc;
          insertions = previous_row ! (j + 1) + 1;
          deletions = current_row ! j + 1;
          substitutions = previous_row ! j + (if c1 \<noteq> c2 then 1 else 0)
      in current_row @ [min (min insertions deletions) substitutions])"

definition lev_row :: "'a list \<Rightarrow> nat list \<Rightarrow> nat \<times> 'a \<Rightarrow> nat list" where
  "lev_row s2 previous_row ic =
     foldl (lev_cell (snd ic) previous_row) [fst ic + 1] (enumerate 0 s2)"

definition lev_table :: "'a list \<Rightarrow> 'a list \<Rightarrow> nat" where
  "lev_table s1 s2 =
     (if length s2 = 0 then length s1
      else last (foldl (lev_row s2) [0..<length s2 + 1] (enumerate 0 s1)))"

definition levenshtein_distance :: "'a list \<Rightarrow> 'a list \<Rightarrow> nat" where
  "levenshtein_distance s1 s2 =
     (if length s1 < length s2 then lev_table s2 s1 else lev_table s1 s2)"

text \<open>
  \<^verbatim>\<open>_calculate_pronunciation_similarity\<close>.  The source computes in binary floating
  point; the model computes the same expression in exact rational arithmetic.
\<close>

definition calculate_pronunciation_similarity :: "'a list \<Rightarrow> 'a list \<Rightarrow> rat" where
  "calculate_pronunciation_similarity pron1 pron2 =
     (if pron1 = [] \<or> pron2 = [] then 0
      else (let distance = levenshtein_distance pron1 pron2;
                max_len = max (length pron1) (length pron2)
            in if max_len = 0 then 1
               else (let similarity = 1 - of_nat distance / of_nat max_len;
                         length_diff = \<bar>int (length pron1) - int (length pron2)\<bar>;
                         similarity' = (if length_diff \<le> 1 then similarity + 1 / 10
                                        else similarity)
                     in min similarity' 1)))"

text \<open>\<^verbatim>\<open>_find_similar_pronunciations\<close>; the sort is stable and descending.\<close>

record similar_word =
  sim_word :: string
  sim_definition :: string
  sim_pronunciation :: "nat list"
  similarity :: rat

definition find_similar_pronunciations :: "analyzer \<Rightarrow> string \<Rightarrow> nat list \<Rightarrow> similar_word list" where
  "find_similar_pronunciations a proposed_word proposed_pronunciation =
     sort_key (\<lambda>x. - similarity x)
       (List.map_filter
          (\<lambda>(existing_word, e).
             if existing_word = proposed_word then None
             else (let existing_pronunciation = generate_pronunciation existing_word;
                       sim = calculate_pronunciation_similarity
                               proposed_pronunciation existing_pronunciation
                   in if sim > 6 / 10
                      then Some \<lparr>sim_word = existing_word, sim_definition = get_definition e,
                                 sim_pronunciation = existing_pronunciation, similarity = sim\<rparr>
                      else None))
          (lexicon a))"

text \<open>
  \<^verbatim>\<open>_analyze_homophones\<close>.  The text of a score in the list of similar words is
  \<^verbatim>\<open>score_text\<close> of the two pronunciations it was computed from.
\<close>

definition analyze_homophones :: "analyzer \<Rightarrow> string \<Rightarrow> analyzer" where
  "analyze_homophones a word =
     (let proposed_pronunciation = generate_pronunciation word;
          similar_words = find_similar_pronunciations a word proposed_pronunciation;
          (st, ms) =
            (if similar_words \<noteq> [] then
               (if length similar_words = 1 \<and> similarity (hd similar_words) > 9 / 10
                then (Warning,
                      [warning_msg (''Very similar pronunciation to '' @
                         quoted (sim_word (hd similar_words)) @ '' ('' @
                         sim_definition (hd similar_words) @
                         '') - potential homophone conflict'')])
                else if length similar_words > 0
                then (Warning,
                      warning_msg ''Similar pronunciation to existing words:'' #
                        map (\<lambda>sw. ''  '' @ bullet @ '' '' @ quoted (sim_word sw) @ '' ('' @
                               sim_definition sw @ '') - similarity: '' @
                               score_text a proposed_pronunciation (sim_pronunciation sw))
                          (take 3 similar_words))
                else (Pass, [pass_msg ''No significant pronunciation conflicts detected'']))
             else (Pass, [pass_msg ''No pronunciation conflicts detected'']))
      in set_section Homophones st ms a)"

section \<open>Semantic checker\<close>

text \<open>
  \<^verbatim>\<open>_analyze_semantics_basic\<close>.  The three checks run in sequence on one status
  variable; the third assigns \<^verbatim>\<open>'WARNING'\<close> without looking at it.
\<close>

definition analyze_semantics_basic ::
    "analyzer \<Rightarrow> string \<Rightarrow> string \<Rightarrow> string \<Rightarrow> string \<Rightarrow> analyzer" where
  "analyze_semantics_basic a word definition domain justification =
     (let (status1, messages1) =
            (if domain \<notin> valid_domains a
             then (Fail, [fail_msg (''Invalid semantic domain '' @ quoted domain)])
             else (Pass, [pass_msg (''Semantic domain '' @ quoted domain @ '' is valid'')]));
          (status2, messages2) =
            (if definition = []
             then (Fail, messages1 @ [fail_msg ''No definition provided''])
             else (status1, messages1 @ [pass_msg ''Definition provided'']));
          (status3, messages3) =
            (if justification = []
             then (Warning, messages2 @ [warning_msg ''No justification provided''])
             else (status2, messages2 @ [pass_msg ''Justification provided'']))
      in set_section Semantics status3 messages3 a)"

section \<open>Recommendation aggregator\<close>

text \<open>
  \<^verbatim>\<open>_generate_recommendation\<close>.  The class defines the method twice; the second
  definition replaces the first, and it is the one embedded here.  The loop runs over the
  items of \<^verbatim>\<open>analysis_results\<close> and skips the recommendation string.
\<close>

definition count_status :: "status \<Rightarrow> analyzer \<Rightarrow> nat" where
  "count_status st a =
     length (filter (\<lambda>s. section_status a s = st) [Phonotactics, Lexicon, Homophones, Semantics])"

definition generate_recommendation :: "analyzer \<Rightarrow> analyzer" where
  "generate_recommendation a =
     (let fail_count = count_status Fail a;
          error_count = count_status Error a;
          warning_count = count_status Warning a
      in a\<lparr>analysis_results := (analysis_results a)\<lparr>recommendation :=
           (if error_count > 0 then RecError
            else if fail_count > 0 then Reject
            else if warning_count > 2 then Review
            else if warning_count > 0 then Review
            else Approve)\<rparr>\<rparr>)"

section \<open>The pipeline and its word gate\<close>

text \<open>
  The dictionary of extracted fields, each a list of code points; a missing key reads as
  the empty string.
\<close>

record proposal_fields =
  field_word :: "nat list"
  field_definition :: "nat list"
  field_domain :: "nat list"
  field_justification :: "nat list"

text \<open>\<^verbatim>\<open>_set_critical_error\<close>.\<close>

definition set_critical_error :: "analyzer \<Rightarrow> string \<Rightarrow> analyzer" where
  "set_critical_error a message =
     (let a' = foldl (\<lambda>b s. set_section s Error [error_msg message] b) a
                 [Phonotactics, Lexicon, Homophones, Semantics]
      in a'\<lparr>analysis_results := (analysis_results a')\<lparr>recommendation := RecError\<rparr>\<rparr>)"

text \<open>
  \<^verbatim>\<open>analyze_proposal\<close>.  The fields are stripped, the word passes the gate or the
  analysis stops in the error state, then the four checks and the aggregator run on the
  stripped fields.  With strings as fields none of them raises, so the handlers are not
  reached.
\<close>

definition analyze_proposal :: "analyzer \<Rightarrow> proposal_fields \<Rightarrow> analyzer" where
  "analyze_proposal a proposal =
     (let word = strip (field_word proposal);
          definition = strip (field_definition proposal);
          domain = strip (field_domain proposal);
          justification = strip (field_justification proposal)
      in if word = [] then set_critical_error a ''No word provided in proposal''
         else if length word > 50
         then set_critical_error a
                (''Proposed word is too long ('' @ show_nat (length word) @
                 '' characters, max 50)'')
         else if \<not> matches_word_format word
         then set_critical_error a
                ''Word contains invalid characters (only letters and hyphens allowed)''
         else generate_recommendation
                (analyze_semantics_basic
                   (analyze_homophones
                      (analyze_lexicon_basic (analyze_phonotactics_basic a (utf8 word))
                         (utf8 word) (utf8 domain))
                      (utf8 word))
                   (utf8 word) (utf8 definition) (utf8 domain) (utf8 justification)))"

section \<open>The edit distance of the specification\<close>

text \<open>
  The specification calls the edit distance the minimum number of single-character
  insertions, deletions and substitutions that turn one sequence into the other.
  \<^verbatim>\<open>edits n xs ys\<close> says that \<^verbatim>\<open>n\<close> such operations, applied from left to right, turn
  \<^verbatim>\<open>xs\<close> into \<^verbatim>\<open>ys\<close>; \<^verbatim>\<open>edit_distance\<close> is the least such number.  It is defined
  from the specification, not from the code, and is what the table of
  \<^verbatim>\<open>_levenshtein_distance\<close> is compared with.
\<close>

inductive edits :: "nat \<Rightarrow> 'a list \<Rightarrow> 'a list \<Rightarrow> bool" where
  Done: "edits 0 [] []"
| Keep: "edits n xs ys \<Longrightarrow> edits n (x # xs) (x # ys)"
| Substitute: "edits n xs ys \<Longrightarrow> edits (Suc n) (x # xs) (y # ys)"
| Delete: "edits n xs ys \<Longrightarrow> edits (Suc n) (x # xs) ys"
| Insert: "edits n xs ys \<Longrightarrow> edits (Suc n) xs (y # ys)"

definition edit_distance :: "'a list \<Rightarrow> 'a list \<Rightarrow> nat" where
  "edit_distance xs ys = (LEAST n. edits n xs ys)"

text \<open>The recurrence that computes it, and the rows of distances between prefixes.\<close>

fun min_edits :: "'a list \<Rightarrow> 'a list \<Rightarrow> nat" where
  "min_edits [] ys = length ys"
| "min_edits (x # xs) [] = length (x # xs)"
| "min_edits (x # xs) (y # ys) =
     min (min (min_edits xs (y # ys) + 1) (min_edits (x # xs) ys + 1))
         (min_edits xs ys + (if x = y then 0 else 1))"

definition dist_row :: "'a list \<Rightarrow> 'a list \<Rightarrow> nat list" where
  "dist_row p s2 = map (\<lambda>j. min_edits p (take j s2)) [0..<length s2 + 1]"

section \<open>A small loaded analyzer\<close>

text \<open>
  An analyzer after \<^verbatim>\<open>load_phonology\<close> and \<^verbatim>\<open>load_lexicon\<close> on a snapshot of two
  root words; it is the concrete input of the evaluations below.  For the two parameters
  of the interpreter it fixes one choice each: sets are iterated in the order of first
  occurrence, and a score is printed as the two decimals nearest to its exact value,
  which is what the interpreter prints wherever the exact score is not midway between
  two such decimals.  The theorems that hold for every analyzer do not depend on either
  choice.
\<close>

definition two_decimals :: "rat \<Rightarrow> string" where
  "two_decimals x =
     (let q = x * 100;
          f = nat \<lfloor>q\<rfloor>;
          frac = q - of_int \<lfloor>q\<rfloor>;
          n = (if frac < 1 / 2 then f
               else if frac > 1 / 2 then f + 1
               else if even f then f else f + 1)
      in show_nat (n div 100) @ ''.'' @ [digit_char (n mod 100 div 10), digit_char (n mod 10)])"

definition sample_score_text :: "nat list \<Rightarrow> nat list \<Rightarrow> string" where
  "sample_score_text p q = two_decimals (calculate_pronunciation_similarity p q)"

definition sample_analyzer :: analyzer where
  "sample_analyzer =
     load_lexicon
       [(''ami'', \<lparr>definition_of = Some ''friend'', domain_of = Some ''Emotion''\<rparr>),
        (''lum'', \<lparr>definition_of = Some ''light'', domain_of = Some ''Nature''\<rparr>)]
       (load_phonology (init_analyzer remdups sample_score_text))"

section \<open>Properties\<close>

lemma section_status_set_section:
  "section_status (set_section s st ms a) s' = (if s' = s then st else section_status a s')"
  by (simp add: section_status_def set_section_def)

lemma section_messages_set_section:
  "section_messages (set_section s st ms a) s' = (if s' = s then ms else section_messages a s')"
  by (simp add: section_messages_def set_section_def)

lemma count_status_pos:
  "0 < count_status st a \<longleftrightarrow> (\<exists>s. section_status a s = st)"
proof
  assume "0 < count_status st a"
  then show "\<exists>s. section_status a s = st"
    by (auto simp: count_status_def split: if_splits)
next
  assume "\<exists>s. section_status a s = st"
  then obtain s where "section_status a s = st" ..
  then show "0 < count_status st a"
    by (cases s) (simp_all add: count_status_def)
qed

text \<open>
  C2.  Whatever the statuses of the four checks are, the recommendation is Error if some
  check is in Error, else Reject if some check is Fail, else Review if some check is
  Warning, else Approve.
\<close>

theorem generate_recommendation_precedence:
  "recommendation (analysis_results (generate_recommendation a)) =
     (if \<exists>s. section_status a s = Error then RecError
      else if \<exists>s. section_status a s = Fail then Reject
      else if \<exists>s. section_status a s = Warning then Review
      else Approve)"
proof -
  have "0 < count_status Warning a" if "2 < count_status Warning a"
    using that by simp
  then show ?thesis
    unfolding generate_recommendation_def Let_def
    by (auto simp: count_status_pos)
qed

subsection \<open>The sample analyzer\<close>

lemma lexicon_sample:
  "lexicon sample_analyzer =
     [(''ami'', \<lparr>definition_of = Some ''friend'', domain_of = Some ''Emotion''\<rparr>),
      (''lum'', \<lparr>definition_of = Some ''light'', domain_of = Some ''Nature''\<rparr>)]"
  by (simp add: sample_analyzer_def load_phonology_def init_analyzer_def)

lemma valid_domains_sample: "valid_domains sample_analyzer = {''Nature'', ''Emotion''}"
  by (simp add: sample_analyzer_def load_phonology_def init_analyzer_def)

subsection \<open>Semantic checker\<close>

text \<open>
  C1.  The claim says that the status of the semantic check is the worst of its three
  sub-results, so that a missing justification never turns a Fail into a Warning.  The
  code assigns Warning unconditionally: with a valid domain, an empty definition and an
  empty justification the status is Warning, not Fail.
\<close>

theorem semantics_warning_overwrites_fail:
  "section_status (analyze_semantics_basic sample_analyzer ''sol'' [] ''Emotion'' []) Semantics
     = Warning"
  by (simp add: analyze_semantics_basic_def section_status_set_section)

subsection \<open>Phonotactic validator: the status is never Warning\<close>

lemma scan_clusters_flag:
  "scan_clusters a part_idx i rest = Some r \<Longrightarrow> \<not> snd (snd r)"
proof (induction a part_idx i rest rule: scan_clusters.induct)
  case (1 a part_idx i rest)
  show ?case using "1.prems" "1.IH"
    by (subst (asm) scan_clusters.simps) (auto simp: Let_def split: if_splits)
qed

lemma cluster_parts_flag: "\<not> snd (snd (cluster_parts a idx parts))"
  by (induction parts arbitrary: idx) (auto split: option.splits dest: scan_clusters_flag)

lemma phonotactics_status_cases:
  "section_status (analyze_phonotactics_basic a word) Phonotactics \<in> {Pass, Fail}"
  using cluster_parts_flag[of a 0 "split_hyphen word"]
  by (simp add: analyze_phonotactics_basic_def section_status_set_section Let_def split_def
        validate_consonant_clusters_def)

subsection \<open>Each step of the pipeline writes its own section only\<close>

lemma status_other_phonotactics:
  "s \<noteq> Phonotactics \<Longrightarrow>
   section_status (analyze_phonotactics_basic a w) s = section_status a s"
  by (simp add: analyze_phonotactics_basic_def section_status_set_section Let_def split_def)

lemma status_other_lexicon:
  "s \<noteq> Lexicon \<Longrightarrow> section_status (analyze_lexicon_basic a w d) s = section_status a s"
  by (simp add: analyze_lexicon_basic_def section_status_set_section Let_def split_def)

lemma status_other_homophones:
  "s \<noteq> Homophones \<Longrightarrow> section_status (analyze_homophones a w) s = section_status a s"
  by (simp add: analyze_homophones_def section_status_set_section Let_def split_def)

lemma status_other_semantics:
  "s \<noteq> Semantics \<Longrightarrow>
   section_status (analyze_semantics_basic a w d dm j) s = section_status a s"
  by (simp add: analyze_semantics_basic_def section_status_set_section Let_def split_def)

lemma status_generate_recommendation:
  "section_status (generate_recommendation a) s = section_status a s"
  by (simp add: generate_recommendation_def section_status_def Let_def)

lemma critical_error_status: "section_status (set_critical_error a m) s = Error"
  by (cases s) (simp_all add: set_critical_error_def section_status_def set_section_def)

lemma critical_error_messages: "section_messages (set_critical_error a m) s = [error_msg m]"
  by (cases s) (simp_all add: set_critical_error_def section_messages_def set_section_def)

lemma critical_error_recommendation:
  "recommendation (analysis_results (set_critical_error a m)) = RecError"
  by (simp add: set_critical_error_def Let_def)

text \<open>
  C10.  The cluster validator always returns its warning flag as False, so the
  phonotactic check ends in Pass or Fail; after the whole pipeline the phonotactic status
  is Pass, Fail or (from the word gate) Error, never Warning.
\<close>

theorem phonotactics_never_warning:
  "\<not> snd (snd (validate_consonant_clusters a word)) \<and>
   section_status (analyze_phonotactics_basic a word) Phonotactics \<in> {Pass, Fail} \<and>
   section_status (analyze_proposal a p) Phonotactics \<in> {Pass, Fail, Error}"
proof (intro conjI)
  show "\<not> snd (snd (validate_consonant_clusters a word))"
    by (simp add: validate_consonant_clusters_def cluster_parts_flag)
  show "section_status (analyze_phonotactics_basic a word) Phonotactics \<in> {Pass, Fail}"
    by (rule phonotactics_status_cases)
  show "section_status (analyze_proposal a p) Phonotactics \<in> {Pass, Fail, Error}"
    using phonotactics_status_cases[of a "utf8 (strip (field_word p))"]
    by (auto simp: analyze_proposal_def Let_def critical_error_status
          status_generate_recommendation status_other_semantics status_other_homophones
          status_other_lexicon)
qed

theorem phonotactics_never_warning_witness:
  "\<not> snd (snd (validate_consonant_clusters sample_analyzer ''stami'')) \<and>
   section_status (analyze_phonotactics_basic sample_analyzer ''stami'') Phonotactics = Fail \<and>
   section_status (analyze_proposal sample_analyzer
      \<lparr>field_word = code_points ''stami'', field_definition = code_points ''test'',
       field_domain = code_points ''Emotion'', field_justification = code_points ''test''\<rparr>)
     Phonotactics \<in> {Pass, Fail, Error}"
proof -
  have "section_status (analyze_phonotactics_basic sample_analyzer ''stami'') Phonotactics = Fail"
    by code_simp
  then show ?thesis
    using phonotactics_never_warning[of sample_analyzer "''stami''"
      "\<lparr>field_word = code_points ''stami'', field_definition = code_points ''test'',
        field_domain = code_points ''Emotion'', field_justification = code_points ''test''\<rparr>"]
    by simp
qed

subsection \<open>The word gate\<close>

lemma last_strip: "strip s \<noteq> [] \<Longrightarrow> \<not> is_space (last (strip s))"
proof -
  assume ne: "strip s \<noteq> []"
  define ys where "ys = dropWhile is_space (rev (dropWhile is_space s))"
  have s: "strip s = rev ys" by (simp add: strip_def ys_def)
  with ne have "ys \<noteq> []" by simp
  then have "\<not> is_space (hd ys)" unfolding ys_def by (rule hd_dropWhile)
  moreover have "last (strip s) = hd ys" using \<open>ys \<noteq> []\<close> s by (simp add: last_rev)
  ultimately show ?thesis by simp
qed

lemma gate_rejects:
  assumes "\<exists>c\<in>set (strip x). \<not> gate_char c"
  shows "\<not> matches_word_format (strip x)"
proof
  assume m: "matches_word_format (strip x)"
  then consider "word_chars_only (strip x)"
    | "strip x \<noteq> []" "last (strip x) = 10"
    by (auto simp: matches_word_format_def)
  then show False
  proof cases
    case 1
    with assms show False by (auto simp: word_chars_only_def list_all_iff)
  next
    case 2
    have "is_space 10" by (simp add: is_space_def)
    with 2 last_strip[of x] show False by simp
  qed
qed

text \<open>
  C3, as the code has it.  The gate looks at the word after \<^verbatim>\<open>strip()\<close>: when the
  stripped word is empty, or longer than 50 characters, or holds a character other than
  an ASCII letter or a hyphen, no check runs: the result is the critical-error state,
  with every section in Error, one error message each, and the recommendation Error.
\<close>

theorem word_gate_error:
  assumes "strip (field_word p) = [] \<or> length (strip (field_word p)) > 50 \<or>
           (\<exists>c\<in>set (strip (field_word p)). \<not> gate_char c)"
  shows "(\<exists>m. analyze_proposal a p = set_critical_error a m) \<and>
         (\<forall>s. section_status (analyze_proposal a p) s = Error) \<and>
         (\<forall>s. length (section_messages (analyze_proposal a p) s) = 1) \<and>
         recommendation (analysis_results (analyze_proposal a p)) = RecError"
proof -
  have "\<exists>m. analyze_proposal a p = set_critical_error a m"
  proof (cases "strip (field_word p) = [] \<or> length (strip (field_word p)) > 50")
    case True
    then show ?thesis by (auto simp: analyze_proposal_def Let_def)
  next
    case False
    with assms have "\<not> matches_word_format (strip (field_word p))"
      by (simp add: gate_rejects)
    with False show ?thesis by (auto simp: analyze_proposal_def Let_def)
  qed
  then obtain m where m: "analyze_proposal a p = set_critical_error a m" ..
  show ?thesis
    unfolding m
    by (auto simp: critical_error_status critical_error_messages critical_error_recommendation)
qed

theorem word_gate_error_witness:
  "(\<forall>s. section_status (analyze_proposal sample_analyzer
           \<lparr>field_word = code_points ''test123'', field_definition = code_points ''test'',
            field_domain = code_points ''General'',
            field_justification = code_points ''test''\<rparr>) s = Error) \<and>
   recommendation (analysis_results (analyze_proposal sample_analyzer
           \<lparr>field_word = code_points ''test123'', field_definition = code_points ''test'',
            field_domain = code_points ''General'',
            field_justification = code_points ''test''\<rparr>)) = RecError"
proof -
  let ?p = "\<lparr>field_word = code_points ''test123'', field_definition = code_points ''test'',
             field_domain = code_points ''General'',
             field_justification = code_points ''test''\<rparr>"
  have "\<exists>c\<in>set (strip (field_word ?p)). \<not> gate_char c"
    by (simp add: strip_def code_points_def is_space_def gate_char_def)
  then have "strip (field_word ?p) = [] \<or> length (strip (field_word ?p)) > 50 \<or>
             (\<exists>c\<in>set (strip (field_word ?p)). \<not> gate_char c)"
    by blast
  from word_gate_error[OF this, of sample_analyzer] show ?thesis by blast
qed

text \<open>
  The other side of the gate: a stripped word that is not empty, at most 50 characters
  long and made of ASCII letters and hyphens goes through the four checks and the
  aggregator, as the same word in bytes.
\<close>

lemma word_char_code:
  assumes "word_char c"
  shows "gate_char (of_char c)" and "(of_char c :: nat) < 128"
proof -
  have h: "(of_char CHR ''-'' :: nat) = 45" by simp
  show "gate_char (of_char c)"
    using assms h by (auto simp: word_char_def gate_char_def Let_def)
  then show "(of_char c :: nat) < 128"
    by (auto simp: gate_char_def)
qed

lemma utf8_ascii:
  "list_all (\<lambda>c. (of_char c :: nat) < 128) s \<Longrightarrow> utf8 (code_points s) = s"
  by (induction s) (simp_all add: utf8_def code_points_def utf8_char_def)

lemma analyze_proposal_checks:
  assumes w: "strip (field_word p) = code_points w"
    and ne: "w \<noteq> []" and len: "length w \<le> 50" and chars: "list_all word_char w"
    and d: "utf8 (strip (field_definition p)) = d"
    and dm: "utf8 (strip (field_domain p)) = dm"
    and j: "utf8 (strip (field_justification p)) = j"
  shows "analyze_proposal a p =
           generate_recommendation
             (analyze_semantics_basic
                (analyze_homophones
                   (analyze_lexicon_basic (analyze_phonotactics_basic a w) w dm) w)
                w d dm j)"
proof -
  have g: "list_all gate_char (code_points w)"
    using chars by (simp add: code_points_def list_all_iff word_char_code)
  have m: "matches_word_format (code_points w)"
    using g ne by (simp add: matches_word_format_def word_chars_only_def code_points_def)
  have "list_all (\<lambda>c. (of_char c :: nat) < 128) w"
    using chars by (simp add: list_all_iff word_char_code)
  then have u: "utf8 (code_points w) = w" by (rule utf8_ascii)
  have n: "code_points w \<noteq> []" "\<not> 50 < length (code_points w)"
    using ne len by (simp_all add: code_points_def)
  show ?thesis
    unfolding analyze_proposal_def Let_def w d dm j u
    using m n by simp
qed

lemma sample_fields:
  "utf8 (strip (code_points ''test'')) = ''test''"
  "utf8 (strip (code_points ''Emotion'')) = ''Emotion''"
proof -
  have "strip (code_points ''test'') = code_points ''test''"
    "strip (code_points ''Emotion'') = code_points ''Emotion''"
    by (simp_all add: strip_def code_points_def is_space_def)
  then show "utf8 (strip (code_points ''test'')) = ''test''"
    "utf8 (strip (code_points ''Emotion'')) = ''Emotion''"
    by (simp_all add: utf8_ascii)
qed

text \<open>
  C3, as the claim words it, fails: the word \<^verbatim>\<open>" a"\<close> holds a space, which is neither a
  letter nor a hyphen, yet the gate strips it, all four checks run on \<^verbatim>\<open>"a"\<close> and the
  recommendation is Approve.
\<close>

theorem word_gate_counterexample:
  "\<not> gate_char (hd (code_points '' a'')) \<and>
   section_status (analyze_proposal sample_analyzer
      \<lparr>field_word = code_points '' a'', field_definition = code_points ''test'',
       field_domain = code_points ''Emotion'',
       field_justification = code_points ''test''\<rparr>) Phonotactics = Pass \<and>
   recommendation (analysis_results (analyze_proposal sample_analyzer
      \<lparr>field_word = code_points '' a'', field_definition = code_points ''test'',
       field_domain = code_points ''Emotion'',
       field_justification = code_points ''test''\<rparr>)) = Approve"
proof -
  let ?p = "\<lparr>field_word = code_points '' a'', field_definition = code_points ''test'',
             field_domain = code_points ''Emotion'',
             field_justification = code_points ''test''\<rparr>"
  let ?r = "generate_recommendation
             (analyze_semantics_basic
                (analyze_homophones
                   (analyze_lexicon_basic (analyze_phonotactics_basic sample_analyzer ''a'')
                      ''a'' ''Emotion'') ''a'')
                ''a'' ''test'' ''Emotion'' ''test'')"
  have "strip (field_word ?p) = code_points ''a''"
    by (simp add: strip_def code_points_def is_space_def)
  then have e: "analyze_proposal sample_analyzer ?p = ?r"
    by (rule analyze_proposal_checks) (simp_all add: word_char_def sample_fields)
  have g: "\<not> gate_char (hd (code_points '' a''))"
    by (simp add: gate_char_def code_points_def)
  have "section_status ?r Phonotactics = Pass" and "recommendation (analysis_results ?r) = Approve"
    by code_simp+
  with e g show ?thesis by simp
qed

text \<open>
  The white space of Unicode is stripped like the space: with a no-break space (U+00A0)
  before it and an en quad (U+2000) after it, the word \<^verbatim>\<open>"a"\<close> is analysed and
  approved.
\<close>

lemma unicode_space_is_stripped:
  "strip [0xA0, 97, 0x2000] = code_points ''a'' \<and>
   recommendation (analysis_results (analyze_proposal sample_analyzer
      \<lparr>field_word = [0xA0, 97, 0x2000], field_definition = code_points ''test'',
       field_domain = code_points ''Emotion'',
       field_justification = code_points ''test''\<rparr>)) = Approve"
proof -
  let ?p = "\<lparr>field_word = [0xA0, 97, 0x2000], field_definition = code_points ''test'',
             field_domain = code_points ''Emotion'',
             field_justification = code_points ''test''\<rparr>"
  let ?r = "generate_recommendation
             (analyze_semantics_basic
                (analyze_homophones
                   (analyze_lexicon_basic (analyze_phonotactics_basic sample_analyzer ''a'')
                      ''a'' ''Emotion'') ''a'')
                ''a'' ''test'' ''Emotion'' ''test'')"
  have s: "strip [0xA0, 97, 0x2000] = code_points ''a''"
    by (simp add: strip_def code_points_def is_space_def)
  then have "strip (field_word ?p) = code_points ''a''" by simp
  then have e: "analyze_proposal sample_analyzer ?p = ?r"
    by (rule analyze_proposal_checks) (simp_all add: word_char_def sample_fields)
  have "recommendation (analysis_results ?r) = Approve"
    by code_simp
  with e s show ?thesis by simp
qed

subsection \<open>Lexicon consistency checker\<close>

lemma lexicon_outcome:
  "section_status (analyze_lexicon_basic a word d) Lexicon =
     fst (domain_check a word d (root_check a word (duplicate_check a word)))"
  "section_messages (analyze_lexicon_basic a word d) Lexicon =
     snd (domain_check a word d (root_check a word (duplicate_check a word)))"
  by (simp_all add: analyze_lexicon_basic_def Let_def section_status_set_section
        section_messages_set_section)

lemma domain_check_fail: "fst sm = Fail \<Longrightarrow> domain_check a word d sm = sm"
  by (simp add: domain_check_def)

lemma domain_check_pass: "fst sm = Pass \<Longrightarrow> fst (domain_check a word d sm) \<in> {Pass, Warning}"
  by (simp add: domain_check_def Let_def)

lemma domain_check_prefix: "\<exists>ms. snd (domain_check a word d sm) = snd sm @ ms"
  by (simp add: domain_check_def Let_def)

lemma root_check_prefix: "\<exists>ms. snd (root_check a word sm) = snd sm @ ms"
  by (simp add: root_check_def Let_def)

lemma root_check_fail: "fst sm = Fail \<Longrightarrow> fst (root_check a word sm) = Fail"
  by (simp add: root_check_def Let_def)

lemma verify_roots_missing:
  "\<exists>r\<in>set roots. \<not> in_lexicon a r \<Longrightarrow>
   \<exists>r\<in>set roots. \<not> in_lexicon a r \<and>
     verify_roots a roots acc = (False, ''Root word '' @ quoted r @ '' not found in lexicon'', [])"
proof (induction roots arbitrary: acc)
  case Nil
  then show ?case by simp
next
  case (Cons r roots)
  show ?case
  proof (cases "in_lexicon a r")
    case True
    with Cons.prems have "\<exists>r\<in>set roots. \<not> in_lexicon a r" by auto
    from Cons.IH[OF this] True show ?thesis by (auto simp: in_lexicon_def)
  next
    case False
    then show ?thesis by (auto simp: in_lexicon_def)
  qed
qed

lemma verify_roots_present:
  "\<forall>r\<in>set roots. in_lexicon a r \<Longrightarrow> fst (verify_roots a roots acc)"
  by (induction roots arbitrary: acc) (auto simp: in_lexicon_def)

lemma hd_checks:
  "snd sm \<noteq> [] \<Longrightarrow> hd (snd (domain_check a word d (root_check a word sm))) = hd (snd sm)"
proof -
  assume ne: "snd sm \<noteq> []"
  obtain ms where 1: "snd (root_check a word sm) = snd sm @ ms"
    using root_check_prefix by blast
  obtain ms' where 2: "snd (domain_check a word d (root_check a word sm))
      = snd (root_check a word sm) @ ms'"
    using domain_check_prefix by blast
  show ?thesis using ne by (simp add: 1 2)
qed

text \<open>
  C7.  A word that is a key of the lexicon gets the lexicon status Fail, and the messages
  hold the failure message that quotes the definition stored for it; a word that is not a
  key gets a Pass message from the duplicate check, first in the list, and without a
  hyphen the status is Pass.
\<close>

theorem duplicate_word_detection:
  "(map_of (lexicon a) word = Some e \<longrightarrow>
      section_status (analyze_lexicon_basic a word d) Lexicon = Fail \<and>
      fail_msg (''Word '' @ quoted word @ '' already exists in lexicon with definition: '' @
                get_definition e)
        \<in> set (section_messages (analyze_lexicon_basic a word d) Lexicon) \<and>
      (\<forall>x. definition_of e = Some x \<longrightarrow> get_definition e = x)) \<and>
   (\<not> in_lexicon a word \<longrightarrow>
      duplicate_check a word =
        (Pass, [pass_msg (''Word '' @ quoted word @ '' is not already in lexicon'')]) \<and>
      hd (section_messages (analyze_lexicon_basic a word d) Lexicon) =
        pass_msg (''Word '' @ quoted word @ '' is not already in lexicon'') \<and>
      (CHR ''-'' \<notin> set word \<longrightarrow>
         section_status (analyze_lexicon_basic a word d) Lexicon = Pass))"
proof (intro conjI impI)
  assume e: "map_of (lexicon a) word = Some e"
  then have dup: "duplicate_check a word =
      (Fail, [fail_msg (''Word '' @ quoted word @
                '' already exists in lexicon with definition: '' @ get_definition e)])"
    by (simp add: duplicate_check_def)
  then have f: "fst (root_check a word (duplicate_check a word)) = Fail"
    by (simp add: root_check_fail)
  show "section_status (analyze_lexicon_basic a word d) Lexicon = Fail"
    using f by (simp add: lexicon_outcome domain_check_fail)
  obtain ms where "snd (root_check a word (duplicate_check a word)) = snd (duplicate_check a word) @ ms"
    using root_check_prefix by blast
  then show "fail_msg (''Word '' @ quoted word @ '' already exists in lexicon with definition: '' @
                get_definition e)
        \<in> set (section_messages (analyze_lexicon_basic a word d) Lexicon)"
    using f dup by (simp add: lexicon_outcome domain_check_fail)
  show "\<forall>x. definition_of e = Some x \<longrightarrow> get_definition e = x"
    by (simp add: get_definition_def)
next
  assume n: "\<not> in_lexicon a word"
  then show dup: "duplicate_check a word =
        (Pass, [pass_msg (''Word '' @ quoted word @ '' is not already in lexicon'')])"
    by (simp add: duplicate_check_def in_lexicon_def)
  show "hd (section_messages (analyze_lexicon_basic a word d) Lexicon) =
        pass_msg (''Word '' @ quoted word @ '' is not already in lexicon'')"
    by (simp add: lexicon_outcome hd_checks dup)
  show "section_status (analyze_lexicon_basic a word d) Lexicon = Pass" if "CHR ''-'' \<notin> set word"
    using that dup by (simp add: lexicon_outcome domain_check_def root_check_def)
qed

theorem duplicate_word_detection_witness:
  "section_status (analyze_lexicon_basic sample_analyzer ''ami'' ''Emotion'') Lexicon = Fail \<and>
   fail_msg (''Word '' @ quoted ''ami'' @ '' already exists in lexicon with definition: '' @
             ''friend'')
     \<in> set (section_messages (analyze_lexicon_basic sample_analyzer ''ami'' ''Emotion'') Lexicon) \<and>
   section_status (analyze_lexicon_basic sample_analyzer ''sol'' ''Emotion'') Lexicon = Pass"
proof -
  let ?e = "\<lparr>definition_of = Some ''friend'', domain_of = Some ''Emotion''\<rparr>"
  have 1: "map_of (lexicon sample_analyzer) ''ami'' = Some ?e"
    by (simp add: lexicon_sample)
  have 2: "\<not> in_lexicon sample_analyzer ''sol''"
    by (simp add: lexicon_sample in_lexicon_def)
  have 3: "CHR ''-'' \<notin> set ''sol''" by simp
  have 4: "get_definition ?e = ''friend''" by (simp add: get_definition_def)
  show ?thesis
    using duplicate_word_detection[of sample_analyzer "''ami''" ?e "''Emotion''"]
      duplicate_word_detection[of sample_analyzer "''sol''" ?e "''Emotion''"] 1 2 3 4
    by simp
qed

text \<open>
  C8.  For a word with a hyphen: when some segment is not in the lexicon, the status is
  Fail and the messages are exactly the message of the duplicate check followed by the
  failure that names a missing segment, so the domain check has added nothing; when every
  segment is in the lexicon the root check succeeds, and a word that is not itself a
  duplicate ends in Pass or Warning.
\<close>

theorem root_existence_check:
  assumes "CHR ''-'' \<in> set word"
  shows "((\<exists>seg\<in>set (split_hyphen word). \<not> in_lexicon a seg) \<longrightarrow>
           (\<exists>seg\<in>set (split_hyphen word). \<not> in_lexicon a seg \<and>
              section_status (analyze_lexicon_basic a word d) Lexicon = Fail \<and>
              section_messages (analyze_lexicon_basic a word d) Lexicon =
                snd (duplicate_check a word) @
                [fail_msg (''Root word '' @ quoted seg @ '' not found in lexicon'')])) \<and>
         ((\<forall>seg\<in>set (split_hyphen word). in_lexicon a seg) \<longrightarrow>
            fst (verify_compound_roots a word) \<and>
            (\<not> in_lexicon a word \<longrightarrow>
               section_status (analyze_lexicon_basic a word d) Lexicon \<in> {Pass, Warning}))"
proof (intro conjI impI)
  assume "\<exists>seg\<in>set (split_hyphen word). \<not> in_lexicon a seg"
  from verify_roots_missing[OF this, of "[]"]
  obtain seg where seg: "seg \<in> set (split_hyphen word)" "\<not> in_lexicon a seg"
    and v: "verify_compound_roots a word =
             (False, ''Root word '' @ quoted seg @ '' not found in lexicon'', [])"
    by (auto simp: verify_compound_roots_def)
  have rc: "root_check a word (duplicate_check a word) =
      (Fail, snd (duplicate_check a word) @
             [fail_msg (''Root word '' @ quoted seg @ '' not found in lexicon'')])"
    using assms v by (simp add: root_check_def)
  show "\<exists>seg\<in>set (split_hyphen word). \<not> in_lexicon a seg \<and>
              section_status (analyze_lexicon_basic a word d) Lexicon = Fail \<and>
              section_messages (analyze_lexicon_basic a word d) Lexicon =
                snd (duplicate_check a word) @
                [fail_msg (''Root word '' @ quoted seg @ '' not found in lexicon'')]"
    using seg rc by (intro bexI[of _ seg]) (simp_all add: lexicon_outcome domain_check_fail)
next
  assume all: "\<forall>seg\<in>set (split_hyphen word). in_lexicon a seg"
  then show v: "fst (verify_compound_roots a word)"
    by (simp add: verify_compound_roots_def verify_roots_present)
  show "section_status (analyze_lexicon_basic a word d) Lexicon \<in> {Pass, Warning}"
    if "\<not> in_lexicon a word"
  proof -
    have "fst (duplicate_check a word) = Pass"
      using that by (simp add: duplicate_check_def in_lexicon_def)
    then have "fst (root_check a word (duplicate_check a word)) = Pass"
      using v assms by (simp add: root_check_def Let_def)
    then show ?thesis
      using domain_check_pass by (simp add: lexicon_outcome)
  qed
qed

theorem root_existence_check_witness:
  "section_status (analyze_lexicon_basic sample_analyzer ''ami-sol'' ''Emotion'') Lexicon = Fail \<and>
   fst (verify_compound_roots sample_analyzer ''ami-lum'') \<and>
   section_status (analyze_lexicon_basic sample_analyzer ''ami-lum'' ''Emotion'') Lexicon
     \<in> {Pass, Warning}"
proof -
  have h1: "CHR ''-'' \<in> set ''ami-sol''" and h2: "CHR ''-'' \<in> set ''ami-lum''"
    by simp_all
  have m: "\<exists>seg\<in>set (split_hyphen ''ami-sol''). \<not> in_lexicon sample_analyzer seg"
    by (simp add: lexicon_sample in_lexicon_def)
  have p: "\<forall>seg\<in>set (split_hyphen ''ami-lum''). in_lexicon sample_analyzer seg"
    by (simp add: lexicon_sample in_lexicon_def)
  have n: "\<not> in_lexicon sample_analyzer ''ami-lum''"
    by (simp add: lexicon_sample in_lexicon_def)
  show ?thesis
    using root_existence_check[OF h1, of sample_analyzer "''Emotion''"]
      root_existence_check[OF h2, of sample_analyzer "''Emotion''"] m p n
    by blast
qed

subsection \<open>Invalid phonemes\<close>

lemma count_join_singletons:
  "c \<notin> set sep \<Longrightarrow> count_list (join sep (map (\<lambda>x. [x]) names)) c = count_list names c"
proof (induction names rule: induct_list012)
  case 1 then show ?case by simp
next
  case (2 x) then show ?case by simp
next
  case (3 x y zs)
  then show ?case by (simp add: count_list_0_iff)
qed

lemma count_list_distinct:
  "distinct xs \<Longrightarrow> x \<in> set xs \<Longrightarrow> count_list xs x = 1"
  by (induction xs) auto

lemma lower_word_char:
  assumes "word_char c" "c \<noteq> CHR ''-''"
  shows "lower_char c \<notin> set '', ''"
proof -
  let ?n = "of_char c :: nat"
  have r: "(97 \<le> ?n \<and> ?n \<le> 122) \<or> (65 \<le> ?n \<and> ?n \<le> 90)"
    using assms by (simp add: word_char_def Let_def)
  have "(of_char (lower_char c) :: nat) \<ge> 97"
    using r by (auto simp: lower_char_def Let_def)
  moreover have "(of_char CHR '','' :: nat) = 44" "(of_char CHR '' '' :: nat) = 32" by simp_all
  ultimately have "lower_char c \<noteq> CHR '',''" "lower_char c \<noteq> CHR '' ''"
    by auto
  then show ?thesis by simp
qed

lemma phonotactics_fail_first:
  assumes "invalid_phonemes a word \<noteq> []"
  shows "section_status (analyze_phonotactics_basic a word) Phonotactics = Fail"
    and "hd (section_messages (analyze_phonotactics_basic a word) Phonotactics) =
           fail_msg (''Invalid phonemes found: '' @
              join '', '' (map (\<lambda>c. [c]) (set_iteration a (invalid_phonemes a word))))"
  using assms cluster_parts_flag[of a 0 "split_hyphen word"]
  by (simp_all add: analyze_phonotactics_basic_def section_status_set_section
        section_messages_set_section Let_def split_def validate_consonant_clusters_def)

text \<open>
  C9.  When the word, without hyphens and in lower case, holds a character outside the
  phoneme inventory, the phonotactic status is Fail and the first message is the failure
  message listing a sequence of characters that has no repetition and holds exactly the
  offending characters (Python iterates over a set, each element once, in an order of its
  own); for a word made of letters and hyphens each of them occurs exactly once in the
  listed text.
\<close>

theorem invalid_phonemes_reported:
  assumes bad: "\<exists>c\<in>set (lower (remove_hyphens word)). c \<notin> valid_phonemes a"
    and iter: "distinct (set_iteration a (invalid_phonemes a word)) \<and>
               set (set_iteration a (invalid_phonemes a word)) = set (invalid_phonemes a word)"
  shows "section_status (analyze_phonotactics_basic a word) Phonotactics = Fail \<and>
         (\<exists>names. distinct names \<and>
            set names = {c \<in> set (lower (remove_hyphens word)). c \<notin> valid_phonemes a} \<and>
            hd (section_messages (analyze_phonotactics_basic a word) Phonotactics) =
              fail_msg (''Invalid phonemes found: '' @ join '', '' (map (\<lambda>c. [c]) names)) \<and>
            (list_all word_char word \<longrightarrow>
               (\<forall>c\<in>set names. count_list (join '', '' (map (\<lambda>c. [c]) names)) c = 1)))"
proof -
  let ?names = "set_iteration a (invalid_phonemes a word)"
  have ne: "invalid_phonemes a word \<noteq> []"
    using bad by (auto simp: invalid_phonemes_def filter_empty_conv)
  have s: "set ?names = {c \<in> set (lower (remove_hyphens word)). c \<notin> valid_phonemes a}"
    using iter by (auto simp: invalid_phonemes_def)
  have once: "count_list (join '', '' (map (\<lambda>c. [c]) ?names)) c = 1"
    if w: "list_all word_char word" and c: "c \<in> set ?names" for c
  proof -
    from c s obtain c' where c': "c' \<in> set word" "c' \<noteq> CHR ''-''" "c = lower_char c'"
      by (auto simp: lower_def remove_hyphens_def)
    with w have "word_char c'" by (simp add: list_all_iff)
    with c' have "c \<notin> set '', ''" using lower_word_char by blast
    then have "count_list (join '', '' (map (\<lambda>c. [c]) ?names)) c = count_list ?names c"
      by (rule count_join_singletons)
    also have "\<dots> = 1" using iter c by (simp add: count_list_distinct)
    finally show ?thesis .
  qed
  show ?thesis
    using phonotactics_fail_first[OF ne] iter s once
    by (intro conjI exI[of _ ?names]) auto
qed

theorem invalid_phonemes_reported_witness:
  "section_status (analyze_phonotactics_basic sample_analyzer ''xyz-qua'') Phonotactics = Fail \<and>
   hd (section_messages (analyze_phonotactics_basic sample_analyzer ''xyz-qua'') Phonotactics) =
     fail_msg ''Invalid phonemes found: x, y, z, q''"
proof -
  have bad: "\<exists>c\<in>set (lower (remove_hyphens ''xyz-qua'')). c \<notin> valid_phonemes sample_analyzer"
    by code_simp
  have it: "set_iteration sample_analyzer = remdups"
    by (simp add: sample_analyzer_def load_phonology_def init_analyzer_def)
  have iter: "distinct (set_iteration sample_analyzer (invalid_phonemes sample_analyzer ''xyz-qua'')) \<and>
     set (set_iteration sample_analyzer (invalid_phonemes sample_analyzer ''xyz-qua'')) =
       set (invalid_phonemes sample_analyzer ''xyz-qua'')"
    by (simp add: it)
  have ev: "hd (section_messages (analyze_phonotactics_basic sample_analyzer ''xyz-qua'')
                  Phonotactics) = fail_msg ''Invalid phonemes found: x, y, z, q''"
    by code_simp
  show ?thesis
    using invalid_phonemes_reported[OF bad iter] ev by simp
qed

subsection \<open>The edit distance and its recurrence\<close>

lemma min_edits_Nil2 [simp]: "min_edits xs [] = length xs"
  by (cases xs) simp_all

lemma edits_inserts: "edits (length ys) [] ys"
  by (induction ys) (auto intro: edits.intros)

lemma edits_deletes: "edits (length xs) xs []"
  by (induction xs) (auto intro: edits.intros)

lemma edits_min_edits: "edits (min_edits xs ys) xs ys"
proof (induction xs ys rule: min_edits.induct)
  case (1 ys)
  then show ?case by (simp add: edits_inserts)
next
  case (2 x xs)
  then show ?case using edits_deletes[of "x # xs"] by simp
next
  case (3 x xs y ys)
  let ?d = "min_edits xs (y # ys)" and ?i = "min_edits (x # xs) ys" and ?s = "min_edits xs ys"
  have d: "edits (?d + 1) (x # xs) (y # ys)" using 3(1) by (auto intro: Delete)
  have i: "edits (?i + 1) (x # xs) (y # ys)" using 3(2) by (auto intro: Insert)
  have s: "edits (?s + (if x = y then 0 else 1)) (x # xs) (y # ys)"
    using 3(3) by (auto intro: Keep Substitute)
  show ?case using d i s by (simp add: min_def)
qed

lemma min_edits_step_delete: "min_edits (x # xs) ys \<le> Suc (min_edits xs ys)"
  by (cases ys) simp_all

lemma min_edits_step_insert: "min_edits xs (y # ys) \<le> Suc (min_edits xs ys)"
  by (cases xs) simp_all

lemma min_edits_least: "edits n xs ys \<Longrightarrow> min_edits xs ys \<le> n"
proof (induction rule: edits.induct)
  case Done
  then show ?case by simp
next
  case (Keep n xs ys x)
  then show ?case by (simp add: min.coboundedI2)
next
  case (Substitute n xs ys x y)
  then show ?case by (auto simp: min.coboundedI2)
next
  case (Delete n xs ys x)
  then show ?case using min_edits_step_delete[of x xs ys] by simp
next
  case (Insert n xs ys y)
  then show ?case using min_edits_step_insert[of xs y ys] by simp
qed

lemma edit_distance_min_edits: "edit_distance xs ys = min_edits xs ys"
  unfolding edit_distance_def
  by (rule Least_equality) (auto intro: edits_min_edits min_edits_least)

lemma edits_snoc:
  assumes "edits n xs ys"
  shows "edits n (xs @ [x]) (ys @ [x])"
    and "edits (Suc n) (xs @ [x]) (ys @ [y])"
    and "edits (Suc n) (xs @ [x]) ys"
    and "edits (Suc n) xs (ys @ [y])"
  using assms by (induction rule: edits.induct) (auto intro: edits.intros)

lemma edits_rev: "edits n xs ys \<Longrightarrow> edits n (rev xs) (rev ys)"
  by (induction rule: edits.induct) (auto intro: edits.intros edits_snoc)

lemma min_edits_rev: "min_edits (rev xs) (rev ys) = min_edits xs ys"
proof (rule antisym)
  show "min_edits (rev xs) (rev ys) \<le> min_edits xs ys"
    by (rule min_edits_least) (rule edits_rev, rule edits_min_edits)
  have "edits (min_edits (rev xs) (rev ys)) (rev (rev xs)) (rev (rev ys))"
    by (rule edits_rev) (rule edits_min_edits)
  then show "min_edits xs ys \<le> min_edits (rev xs) (rev ys)"
    by (simp add: min_edits_least)
qed

lemma min_edits_snoc:
  "min_edits (xs @ [x]) (ys @ [y]) =
     min (min (min_edits xs (ys @ [y]) + 1) (min_edits (xs @ [x]) ys + 1))
         (min_edits xs ys + (if x = y then 0 else 1))"
proof -
  have "min_edits (xs @ [x]) (ys @ [y]) = min_edits (x # rev xs) (y # rev ys)"
    using min_edits_rev[of "xs @ [x]" "ys @ [y]"] by simp
  moreover have "min_edits (rev xs) (y # rev ys) = min_edits xs (ys @ [y])"
    using min_edits_rev[of xs "ys @ [y]"] by simp
  moreover have "min_edits (x # rev xs) (rev ys) = min_edits (xs @ [x]) ys"
    using min_edits_rev[of "xs @ [x]" ys] by simp
  ultimately show ?thesis by (simp add: min_edits_rev)
qed

lemma min_edits_sym: "min_edits xs ys = min_edits ys xs"
proof (rule antisym)
  have sym: "edits n ys xs" if "edits n xs ys" for n and xs ys :: "'a list"
    using that by (induction rule: edits.induct) (auto intro: edits.intros)
  show "min_edits xs ys \<le> min_edits ys xs"
    by (rule min_edits_least) (rule sym, rule edits_min_edits)
  show "min_edits ys xs \<le> min_edits xs ys"
    by (rule min_edits_least) (rule sym, rule edits_min_edits)
qed

lemma min_edits_le_max: "min_edits xs ys \<le> max (length xs) (length ys)"
proof (induction xs ys rule: min_edits.induct)
  case (3 x xs y ys)
  have "min_edits (x # xs) (y # ys) \<le> min_edits xs ys + 1"
    by (simp add: min.coboundedI2)
  with 3(3) show ?case by simp
qed simp_all

lemma min_edits_same [simp]: "min_edits xs xs = 0"
  by (induction xs) simp_all

subsection \<open>The table of the source holds the edit distances of the prefixes\<close>

lemma enumerate_snoc: "enumerate 0 (xs @ [x]) = enumerate 0 xs @ [(length xs, x)]"
  by (simp add: enumerate_append_eq)

lemma lev_cells:
  assumes "k \<le> length s2"
  shows "foldl (lev_cell c (dist_row p s2)) [length p + 1] (enumerate 0 (take k s2)) =
           map (\<lambda>j. min_edits (p @ [c]) (take j s2)) [0..<k + 1]"
  using assms
proof (induction k)
  case 0
  then show ?case by simp
next
  case (Suc k)
  then have k: "k < length s2" by simp
  let ?cur = "map (\<lambda>j. min_edits (p @ [c]) (take j s2)) [0..<k + 1]"
  have t: "take (Suc k) s2 = take k s2 @ [s2 ! k]"
    using k by (simp add: take_Suc_conv_app_nth)
  have len: "length (take k s2) = k" using k by simp
  have cur: "?cur ! k = min_edits (p @ [c]) (take k s2)"
    using nth_map[of k "[0..<k + 1]"] by (simp del: upt_Suc)
  have p1: "dist_row p s2 ! (k + 1) = min_edits p (take (k + 1) s2)"
    unfolding dist_row_def using k nth_map[of "k + 1" "[0..<length s2 + 1]"]
    by (simp del: upt_Suc)
  have p0: "dist_row p s2 ! k = min_edits p (take k s2)"
    unfolding dist_row_def using k nth_map[of k "[0..<length s2 + 1]"]
    by (simp del: upt_Suc)
  have "foldl (lev_cell c (dist_row p s2)) [length p + 1] (enumerate 0 (take (Suc k) s2)) =
          lev_cell c (dist_row p s2) ?cur (k, s2 ! k)"
    using Suc.IH k by (simp add: t enumerate_snoc len del: upt_Suc)
  also have "\<dots> = ?cur @ [min_edits (p @ [c]) (take k s2 @ [s2 ! k])]"
    unfolding lev_cell_def Let_def fst_conv snd_conv cur p1 p0
    by (simp add: min_edits_snoc t del: upt_Suc)
  also have "\<dots> = map (\<lambda>j. min_edits (p @ [c]) (take j s2)) [0..<Suc k + 1]"
    by (simp add: t)
  finally show ?case .
qed

lemma lev_row_dist_row:
  "lev_row s2 (dist_row p s2) (length p, c) = dist_row (p @ [c]) s2"
  using lev_cells[of "length s2" s2 c p]
  by (simp add: lev_row_def dist_row_def)

lemma lev_rows:
  assumes "k \<le> length s1"
  shows "foldl (lev_row s2) [0..<length s2 + 1] (enumerate 0 (take k s1)) = dist_row (take k s1) s2"
  using assms
proof (induction k)
  case 0
  have "map (\<lambda>j. min_edits [] (take j s2)) [0..<length s2 + 1] = [0..<length s2 + 1]"
    by (rule map_idI) auto
  then show ?case by (simp add: dist_row_def del: upt_Suc)
next
  case (Suc k)
  then have k: "k < length s1" by simp
  have t: "take (Suc k) s1 = take k s1 @ [s1 ! k]"
    using k by (simp add: take_Suc_conv_app_nth)
  have len: "length (take k s1) = k" using k by simp
  show ?case
    using Suc.IH k lev_row_dist_row[of s2 "take k s1" "s1 ! k"]
    by (simp add: t enumerate_snoc len del: upt_Suc)
qed

lemma lev_table_min_edits: "lev_table s1 s2 = min_edits s1 s2"
proof (cases "s2 = []")
  case True
  then show ?thesis by (simp add: lev_table_def)
next
  case False
  have "last (dist_row s1 s2) = min_edits s1 s2"
    by (simp add: dist_row_def last_map del: upt_Suc) 
  then show ?thesis
    using False lev_rows[of "length s1" s1 s2] by (simp add: lev_table_def)
qed

lemma levenshtein_min_edits: "levenshtein_distance s1 s2 = min_edits s1 s2"
  using min_edits_sym[of s2 s1] by (simp add: levenshtein_distance_def lev_table_min_edits)

subsection \<open>Pronunciation similarity\<close>

lemma levenshtein_edit_distance: "levenshtein_distance a b = edit_distance a b"
  by (simp add: levenshtein_min_edits edit_distance_min_edits)

lemma similarity_unfold:
  "a \<noteq> [] \<Longrightarrow> b \<noteq> [] \<Longrightarrow>
   calculate_pronunciation_similarity a b =
     min (1 - of_nat (min_edits a b) / of_nat (max (length a) (length b)) +
          (if \<bar>int (length a) - int (length b)\<bar> \<le> 1 then 1 / 10 else 0)) 1"
  by (simp add: calculate_pronunciation_similarity_def Let_def levenshtein_min_edits)

lemma ratio_le_one:
  "(of_nat (min_edits a b) :: rat) / of_nat (max (length a) (length b)) \<le> 1"
proof (cases "max (length a) (length b) = 0")
  case True
  then show ?thesis by simp
next
  case False
  then have "0 < max (length a) (length b)"
    by (cases a; cases b) simp_all
  then have m: "0 < (of_nat (max (length a) (length b)) :: rat)"
    by (simp only: of_nat_0_less_iff)
  have "(of_nat (min_edits a b) :: rat) \<le> of_nat (max (length a) (length b))"
    by (simp only: of_nat_le_iff min_edits_le_max)
  then show ?thesis
    by (simp only: pos_divide_le_eq[OF m] mult_1)
qed

text \<open>
  C4.  For pronunciations that are not empty the score is
  \<^verbatim>\<open>min(1, (1 - d / max(len a, len b)) + bonus)\<close>, where \<^verbatim>\<open>d\<close> is the edit distance of
  the specification (which the table of the source computes) and the bonus is one tenth
  when the lengths differ by at most one; the score lies between 0 and 1; it is 0 when a
  pronunciation is empty.  The arithmetic is that of the rational numbers.
\<close>

theorem similarity_formula:
  "calculate_pronunciation_similarity a b =
     (if a = [] \<or> b = [] then 0
      else min 1 (1 - of_nat (edit_distance a b) / of_nat (max (length a) (length b)) +
                  (if \<bar>int (length a) - int (length b)\<bar> \<le> 1 then 1 / 10 else 0))) \<and>
   levenshtein_distance a b = edit_distance a b \<and>
   0 \<le> calculate_pronunciation_similarity a b \<and>
   calculate_pronunciation_similarity a b \<le> 1"
proof (cases "a = [] \<or> b = []")
  case True
  then show ?thesis
    by (auto simp: calculate_pronunciation_similarity_def levenshtein_edit_distance)
next
  case False
  then have ne: "a \<noteq> []" "b \<noteq> []" by simp_all
  have "0 \<le> 1 - (of_nat (min_edits a b) :: rat) / of_nat (max (length a) (length b))"
    using ratio_le_one[of a b] by simp
  then have "0 \<le> 1 - (of_nat (min_edits a b) :: rat) / of_nat (max (length a) (length b)) +
          (if \<bar>int (length a) - int (length b)\<bar> \<le> 1 then 1 / 10 else 0)"
    by simp
  then show ?thesis
    using ne by (simp add: similarity_unfold levenshtein_edit_distance edit_distance_min_edits
                   min.commute)
qed

theorem similarity_formula_witness:
  "calculate_pronunciation_similarity ''kitten'' ''sitting'' = 47 / 70 \<and>
   edit_distance ''kitten'' ''sitting'' = 3 \<and>
   0 \<le> calculate_pronunciation_similarity ''kitten'' ''sitting'' \<and>
   calculate_pronunciation_similarity ''kitten'' ''sitting'' \<le> 1"
proof -
  have "levenshtein_distance ''kitten'' ''sitting'' = 3" by code_simp
  moreover have "calculate_pronunciation_similarity ''kitten'' ''sitting'' = 47 / 70"
    by code_simp
  ultimately show ?thesis using similarity_formula[of "''kitten''" "''sitting''"] by simp
qed

text \<open>C5.  The similarity of two pronunciations does not depend on their order.\<close>

theorem similarity_symmetric: "calculate_pronunciation_similarity a b = calculate_pronunciation_similarity b a"
proof (cases "a = [] \<or> b = []")
  case True
  then show ?thesis by (auto simp: calculate_pronunciation_similarity_def)
next
  case False
  then show ?thesis
    using min_edits_sym[of a b]
    by (simp add: similarity_unfold max.commute abs_minus_commute)
qed

theorem similarity_symmetric_witness:
  "calculate_pronunciation_similarity ''kitten'' ''sitting'' =
   calculate_pronunciation_similarity ''sitting'' ''kitten''"
  using similarity_symmetric[of "''kitten''" "''sitting''"] .

text \<open>
  C6, as the code has it.  A pronunciation that is not empty has similarity 1 with
  itself.
\<close>

theorem self_similarity: "a \<noteq> [] \<Longrightarrow> calculate_pronunciation_similarity a a = 1"
  by (simp add: similarity_unfold)

theorem self_similarity_witness:
  "calculate_pronunciation_similarity (generate_pronunciation ''ami'')
     (generate_pronunciation ''ami'') = 1"
proof -
  have "generate_pronunciation ''ami'' \<noteq> []" by (simp add: generate_pronunciation_def lower_def remove_hyphens_def)
  then show ?thesis by (rule self_similarity)
qed

text \<open>
  C6, as the claim words it, fails: the word \<^verbatim>\<open>"---"\<close> passes the word gate, its
  pronunciation is the empty string, and the guard for empty pronunciations returns 0
  for it against itself.
\<close>

theorem self_similarity_counterexample:
  "generate_pronunciation ''---'' = [] \<and>
   calculate_pronunciation_similarity (generate_pronunciation ''---'')
     (generate_pronunciation ''---'') = 0 \<and>
   calculate_pronunciation_similarity (generate_pronunciation ''---'')
     (generate_pronunciation ''---'') \<noteq> 1"
  by (simp add: generate_pronunciation_def lower_def remove_hyphens_def
        calculate_pronunciation_similarity_def)

end
